theory Spec2Isabelle
  imports Main "HOL-Library.Char_ord"
begin

section \<open>Regular expressions of the worker\<close>

text \<open>
  The worker (\<^verbatim>\<open>src/backend/api.ts\<close>) classifies URLs and routes requests with JavaScript
  regular expressions. Strings are lists of code units; the model covers the code units
  below 256 (\<^typ>\<open>char\<close>). The matcher below is a backtracking matcher that returns
  every way a pattern can match a prefix of the remaining input, in the priority order of the
  JavaScript matcher (left alternative first, greedy repetition first), so that the first
  element is the match JavaScript reports. A matcher state is the index reached, the input
  that is left, and the capture groups recorded so far.
\<close>

datatype regex =
    Chr "char \<Rightarrow> bool"
  | Eps
  | Seq regex regex
  | Alt regex regex
  | Star regex
  | Group nat regex
  | Bol
  | Eol

type_synonym mstate = "nat \<times> string \<times> (nat \<rightharpoonup> string)"

function (sequential) mt :: "regex \<Rightarrow> mstate \<Rightarrow> mstate list" where
  "mt (Chr p) (i, s, c) =
     (case s of [] \<Rightarrow> [] | x # xs \<Rightarrow> if p x then [(Suc i, xs, c)] else [])"
| "mt Eps st = [st]"
| "mt (Seq a b) st = concat (map (mt b) (mt a st))"
| "mt (Alt a b) st = mt a st @ mt b st"
| "mt (Star a) st =
     concat (map (mt (Star a))
       (filter (\<lambda>t. length (fst (snd t)) < length (fst (snd st))) (mt a st))) @ [st]"
| "mt (Group n a) (i, s, c) =
     map (\<lambda>(j, t, c'). (j, t, c'(n \<mapsto> take (j - i) s))) (mt a (i, s, c))"
| "mt Bol (i, s, c) = (if i = 0 then [(i, s, c)] else [])"
| "mt Eol (i, s, c) = (if s = [] then [(i, s, c)] else [])"
  by pat_completeness auto
termination
  by (relation "measures [\<lambda>(r, st). size r, \<lambda>(r, st). length (fst (snd st))]") auto

text \<open>\<^verbatim>\<open>x+\<close>, \<^verbatim>\<open>x{n}\<close> and a literal string.\<close>

definition Plus :: "regex \<Rightarrow> regex" where
  "Plus r = Seq r (Star r)"

primrec rep :: "nat \<Rightarrow> regex \<Rightarrow> regex" where
  "rep 0 r = Eps"
| "rep (Suc n) r = Seq r (rep n r)"

primrec lit :: "string \<Rightarrow> regex" where
  "lit [] = Eps"
| "lit (x # xs) = Seq (Chr (\<lambda>c. c = x)) (lit xs)"

text \<open>
  \<^verbatim>\<open>RegExp.prototype.exec\<close> without the global flag: the leftmost start index at which
  the pattern matches, and there the first match in priority order.
  \<^verbatim>\<open>pattern.test(s)\<close> says whether there is one; \<^verbatim>\<open>s.match(pattern)\<close> is the same search,
  and \<^verbatim>\<open>match[n]\<close> is what group \<open>n\<close> captured.
\<close>

fun exec_from :: "regex \<Rightarrow> nat \<Rightarrow> string \<Rightarrow> mstate option" where
  "exec_from r i s =
     (case mt r (i, s, Map.empty) of
        st # _ \<Rightarrow> Some st
      | [] \<Rightarrow> (case s of [] \<Rightarrow> None | _ # t \<Rightarrow> exec_from r (Suc i) t))"

definition exec :: "regex \<Rightarrow> string \<Rightarrow> (nat \<rightharpoonup> string) option" where
  "exec r s = map_option (\<lambda>(j, t, c). c) (exec_from r 0 s)"

definition test :: "regex \<Rightarrow> string \<Rightarrow> bool" where
  "test r s = (exec r s \<noteq> None)"

text \<open>Character classes: \<^verbatim>\<open>\d\<close>, \<^verbatim>\<open>\w\<close>, \<^verbatim>\<open>[a-zA-Z0-9_-]\<close>, \<^verbatim>\<open>[^/]\<close>, \<^verbatim>\<open>.\<close> and \<^verbatim>\<open>[a-zA-Z0-9_]\<close>.\<close>

definition lower :: "char \<Rightarrow> bool" where
  "lower c = (CHR ''a'' \<le> c \<and> c \<le> CHR ''z'')"

definition upper :: "char \<Rightarrow> bool" where
  "upper c = (CHR ''A'' \<le> c \<and> c \<le> CHR ''Z'')"

definition digit :: "char \<Rightarrow> bool" where
  "digit c = (CHR ''0'' \<le> c \<and> c \<le> CHR ''9'')"

definition word_char :: "char \<Rightarrow> bool" where
  "word_char c = (lower c \<or> upper c \<or> digit c \<or> c = CHR ''_'')"

definition id_char :: "char \<Rightarrow> bool" where
  "id_char c = (lower c \<or> upper c \<or> digit c \<or> c = CHR ''_'' \<or> c = CHR ''-'')"

definition not_slash :: "char \<Rightarrow> bool" where
  "not_slash c = (c \<noteq> CHR ''/'')"

definition dot :: "char \<Rightarrow> bool" where
  "dot c = (c \<noteq> CHR 0x0A \<and> c \<noteq> CHR 0x0D)"

section \<open>Platform detection\<close>

text \<open>The table \<^verbatim>\<open>platformPatterns\<close>, in the order of its keys.\<close>

definition platformPatterns :: "(string \<times> regex) list" where
  "platformPatterns =
    [(''youtube'',
        Seq (Alt (lit ''youtube.com/watch?v='') (lit ''youtu.be/''))
            (Group 1 (rep 11 (Chr id_char)))),
     (''tiktok'',
        Seq (lit ''tiktok.com/@'') (Seq (Plus (Chr not_slash))
            (Seq (lit ''/video/'') (Group 1 (Plus (Chr digit)))))),
     (''instagram'',
        Seq (lit ''instagram.com/'') (Seq (Group 1 (Alt (lit ''p'') (lit ''reel'')))
            (Seq (lit ''/'') (Group 2 (Plus (Chr id_char)))))),
     (''twitter'',
        Seq (Alt (lit ''twitter.com'') (lit ''x.com'')) (Seq (lit ''/'')
            (Seq (Plus (Chr word_char)) (Seq (lit ''/status/'') (Group 1 (Plus (Chr digit))))))),
     (''vimeo'',
        Seq (lit ''vimeo.com/'') (Group 1 (Plus (Chr digit)))),
     (''facebook'',
        Seq (lit ''facebook.com/'') (Seq (Star (Chr dot))
            (Seq (lit ''/videos/'') (Group 1 (Plus (Chr digit)))))),
     (''twitch'',
        Seq (lit ''twitch.tv/videos/'') (Group 1 (Plus (Chr digit))))]"

text \<open>\<^verbatim>\<open>platform.charAt(0).toUpperCase() + platform.slice(1)\<close>; the keys are ASCII.\<close>

definition toUpperCase :: "char \<Rightarrow> char" where
  "toUpperCase c = (if lower c then char_of (of_char c - (32::nat)) else c)"

definition capitalize :: "string \<Rightarrow> string" where
  "capitalize s = map toUpperCase (take 1 s) @ drop 1 s"

fun detect_loop :: "(string \<times> regex) list \<Rightarrow> string \<Rightarrow> string" where
  "detect_loop [] url = ''Unknown''"
| "detect_loop ((platform, pattern) # rest) url =
     (if test pattern url then capitalize platform else detect_loop rest url)"

definition detectPlatform :: "string \<Rightarrow> string" where
  "detectPlatform url = detect_loop platformPatterns url"

fun extract_loop :: "(string \<times> regex) list \<Rightarrow> string \<Rightarrow> string option" where
  "extract_loop [] url = None"
| "extract_loop ((platform, pattern) # rest) url =
     (case exec pattern url of Some m \<Rightarrow> m 1 | None \<Rightarrow> extract_loop rest url)"

definition extractVideoId :: "string \<Rightarrow> string option" where
  "extractVideoId url = extract_loop platformPatterns url"

section \<open>Job records and the job table\<close>

text \<open>
  The worker's \<^verbatim>\<open>DownloadStatus\<close>; its field \<^verbatim>\<open>id\<close> is \<open>status_id\<close> here. \<^verbatim>\<open>createdAt\<close> and
  \<^verbatim>\<open>completedAt\<close> hold the instant (milliseconds since the epoch) whose ISO rendering the
  code stores.
\<close>

datatype status_kind = Processing | Completed | Error | Queued

record download_status =
  status_id :: string
  status :: status_kind
  progress :: nat
  downloadUrl :: "string option"
  error :: "string option"
  createdAt :: nat
  completedAt :: "nat option"

text \<open>
  The three callbacks that \<^verbatim>\<open>POST /api/download\<close> hands to \<^verbatim>\<open>setTimeout\<close>; the last one
  closes over \<^verbatim>\<open>body.format\<close>. A pending timer has the instant it is due at and the
  \<^verbatim>\<open>downloadId\<close> its callback closes over.
\<close>

datatype callback = Progress25 | Progress75 | Complete string

record timer =
  due :: nat
  job :: string
  action :: callback

text \<open>
  The state of the worker: the own properties of the object \<^verbatim>\<open>downloadStatuses\<close> and the
  timers that are pending, in the order in which they were registered.
\<close>

record worker =
  downloadStatuses :: "string \<rightharpoonup> download_status"
  timers :: "timer list"

definition init :: worker where
  "init = \<lparr>downloadStatuses = Map.empty, timers = []\<rparr>"

text \<open>
  \<^verbatim>\<open>downloadStatuses\<close> is a plain object literal, so reading a property that is not its own
  finds the properties of \<^verbatim>\<open>Object.prototype\<close>; each of them is a function or an object,
  hence truthy.
\<close>

definition object_prototype :: "string list" where
  "object_prototype =
    [''constructor'', ''__defineGetter__'', ''__defineSetter__'', ''hasOwnProperty'',
     ''__lookupGetter__'', ''__lookupSetter__'', ''isPrototypeOf'', ''propertyIsEnumerable'',
     ''toString'', ''valueOf'', ''__proto__'', ''toLocaleString'']"

datatype property = Own download_status | Inherited | Undefined

definition lookup :: "worker \<Rightarrow> string \<Rightarrow> property" where
  "lookup w k =
     (case downloadStatuses w k of
        Some r \<Rightarrow> Own r
      | None \<Rightarrow> if k \<in> set object_prototype then Inherited else Undefined)"

section \<open>Job identifiers\<close>

text \<open>
  What a handler reads from its environment: \<^verbatim>\<open>Math.random()\<close>, given by the base-36
  digits that \<^verbatim>\<open>toString(36)\<close> prints after \<^verbatim>\<open>0.\<close> (none for the value 0; a digit is read
  modulo 36), and the clock (\<^verbatim>\<open>Date.now()\<close>, \<^verbatim>\<open>new Date()\<close>) in milliseconds since the epoch,
  read once for the turn of the event loop in which the handler or the callback runs.
\<close>

record env =
  random :: "nat list"
  now :: nat

definition digit36 :: "nat \<Rightarrow> char" where
  "digit36 d = ''0123456789abcdefghijklmnopqrstuvwxyz'' ! (d mod 36)"

function toString36 :: "nat \<Rightarrow> string" where
  "toString36 n = (if n < 36 then [digit36 n] else toString36 (n div 36) @ [digit36 (n mod 36)])"
  by pat_completeness auto
termination
  by (relation "measure (\<lambda>n. n)") auto

definition random_toString36 :: "nat list \<Rightarrow> string" where
  "random_toString36 ds = (if ds = [] then ''0'' else ''0.'' @ map digit36 ds)"

definition substr :: "string \<Rightarrow> nat \<Rightarrow> nat \<Rightarrow> string" where
  "substr s start len = take len (drop start s)"

definition generateDownloadId :: "env \<Rightarrow> string" where
  "generateDownloadId e =
     ''dl_'' @ substr (random_toString36 (random e)) 2 9 @ toString36 (now e)"

section \<open>The request handler\<close>

text \<open>
  A request is its method (\<^verbatim>\<open>request.method\<close>), the path of its URL and its JSON body.
  \<^verbatim>\<open>Malformed\<close> is a body on which \<^verbatim>\<open>request.json()\<close> or the read of a field throws;
  otherwise the body gives the fields \<^verbatim>\<open>url\<close>, \<^verbatim>\<open>format\<close> and \<^verbatim>\<open>quality\<close>, each a string
  or missing, as the type \<^verbatim>\<open>DownloadRequest\<close> has them. Every response carries the same CORS
  headers, which are left out.
\<close>

datatype request_body = Malformed | Fields "string option" "string option" "string option"

record request =
  http_method :: string
  pathname :: string
  body :: request_body

text \<open>
  The bodies of the responses: none (the answer to \<^verbatim>\<open>OPTIONS\<close>); the health report with its
  timestamp; \<^verbatim>\<open>{error}\<close>; \<^verbatim>\<open>{error: "Not Found", path}\<close>; \<^verbatim>\<open>{videoInfo}\<close> with the video's id,
  URL and platform; \<^verbatim>\<open>{downloadId, status}\<close>; \<^verbatim>\<open>{status}\<close> with a job record; \<^verbatim>\<open>{status}\<close>
  with a value inherited from \<^verbatim>\<open>Object.prototype\<close>; and the platform names.
\<close>

datatype payload =
    NoBody
  | Health nat
  | ErrorBody string
  | NotFound string
  | VideoInfo string string string
  | Created string download_status
  | StatusOf download_status
  | StatusInherited
  | Platforms "string list"

record response =
  code :: nat
  payload :: payload

definition json :: "nat \<Rightarrow> payload \<Rightarrow> response" where
  "json c p = \<lparr>code = c, payload = p\<rparr>"

text \<open>\<^verbatim>\<open>!x\<close> for a field that is a string or missing.\<close>

definition falsy :: "string option \<Rightarrow> bool" where
  "falsy x = (x = None \<or> x = Some [])"

text \<open>\<^verbatim>\<open>POST /api/video-info\<close>; the mock's random decorations of the answer are left out.\<close>

definition video_info :: "request_body \<Rightarrow> response" where
  "video_info b =
     (case b of
        Malformed \<Rightarrow> json 500 (ErrorBody ''Internal Server Error'')
      | Fields url format quality \<Rightarrow>
          if falsy url then json 400 (ErrorBody ''URL is required'')
          else
            let platform = detectPlatform (the url);
                videoId = extractVideoId (the url)
            in if platform = ''Unknown'' \<or> falsy videoId
               then json 400 (ErrorBody ''Unsupported platform or invalid URL'')
               else json 200 (VideoInfo (the videoId) (the url) platform))"

text \<open>\<^verbatim>\<open>POST /api/download\<close>.\<close>

definition start_download :: "env \<Rightarrow> request_body \<Rightarrow> worker \<Rightarrow> response \<times> worker" where
  "start_download e b w =
     (case b of
        Malformed \<Rightarrow> (json 500 (ErrorBody ''Internal Server Error''), w)
      | Fields url format quality \<Rightarrow>
          if falsy url \<or> falsy format \<or> falsy quality
          then (json 400 (ErrorBody ''URL, format, and quality are required''), w)
          else if detectPlatform (the url) = ''Unknown''
          then (json 400 (ErrorBody ''Unsupported platform''), w)
          else
            let downloadId = generateDownloadId e;
                downloadStatus =
                  \<lparr>status_id = downloadId, status = Queued, progress = 0, downloadUrl = None,
                   error = None, createdAt = now e, completedAt = None\<rparr>
            in (json 200 (Created downloadId downloadStatus),
                w\<lparr>downloadStatuses := (downloadStatuses w)(downloadId \<mapsto> downloadStatus),
                  timers := timers w @
                    [\<lparr>due = now e + 1000, job = downloadId, action = Progress25\<rparr>,
                     \<lparr>due = now e + 2000, job = downloadId, action = Progress75\<rparr>,
                     \<lparr>due = now e + 3000, job = downloadId, action = Complete (the format)\<rparr>]\<rparr>))"

text \<open>The route \<^verbatim>\<open>/^\/api\/download\/([a-zA-Z0-9_]+)$/\<close> and \<^verbatim>\<open>GET /api/download/:id\<close>.\<close>

definition downloadRoute :: regex where
  "downloadRoute =
     Seq Bol (Seq (lit ''/api/download/'') (Seq (Group 1 (Plus (Chr word_char))) Eol))"

definition download_status_of :: "(nat \<rightharpoonup> string) \<Rightarrow> worker \<Rightarrow> response" where
  "download_status_of downloadMatch w =
     (let downloadId = (case downloadMatch 1 of Some i \<Rightarrow> i | None \<Rightarrow> ''undefined'')
      in case lookup w downloadId of
           Undefined \<Rightarrow> json 404 (ErrorBody ''Download not found'')
         | Own r \<Rightarrow> json 200 (StatusOf r)
         | Inherited \<Rightarrow> json 200 StatusInherited)"

text \<open>The handler \<^verbatim>\<open>fetch\<close>: the routes in the order of the source.\<close>

definition fetch :: "env \<Rightarrow> request \<Rightarrow> worker \<Rightarrow> response \<times> worker" where
  "fetch e req w =
     (if http_method req = ''OPTIONS'' then (json 200 NoBody, w)
      else if pathname req = ''/api/health'' \<and> http_method req = ''GET''
      then (json 200 (Health (now e)), w)
      else if pathname req = ''/api/video-info'' \<and> http_method req = ''POST''
      then (video_info (body req), w)
      else if pathname req = ''/api/download'' \<and> http_method req = ''POST''
      then start_download e (body req) w
      else
        let downloadMatch = exec downloadRoute (pathname req)
        in if downloadMatch \<noteq> None \<and> http_method req = ''GET''
           then (download_status_of (the downloadMatch) w, w)
           else if pathname req = ''/api/supported-platforms'' \<and> http_method req = ''GET''
           then (json 200 (Platforms (map (\<lambda>(platform, pattern). capitalize platform)
                                          platformPatterns)), w)
           else (json 404 (NotFound (pathname req)), w))"

section \<open>The event loop\<close>








section \<open>The client library\<close>

text \<open>
  \<^verbatim>\<open>src/lib/api.ts\<close>. What a \<^verbatim>\<open>throw\<close> carries: the \<^verbatim>\<open>TypeError\<close> of the \<^verbatim>\<open>URL\<close>
  constructor, the library's \<^verbatim>\<open>APIError\<close> (message and HTTP status), or any other value.
\<close>

datatype exn = TypeError | APIError string "nat option" | Thrown string

subsection \<open>\<^verbatim>\<open>isValidVideoUrl\<close>\<close>

record url_obj =
  hostname :: string

definition supportedDomains :: "string list" where
  "supportedDomains =
    [''youtube.com'', ''youtu.be'', ''tiktok.com'', ''instagram.com'',
     ''twitter.com'', ''x.com'', ''vimeo.com'', ''facebook.com'',
     ''twitch.tv'', ''dailymotion.com'', ''soundcloud.com'', ''reddit.com'']"

definition startsWith :: "string \<Rightarrow> string \<Rightarrow> bool" where
  "startsWith s d = (take (length d) s = d)"

fun js_includes :: "string \<Rightarrow> string \<Rightarrow> bool" where
  "js_includes [] d = (d = [])"
| "js_includes (x # xs) d = (startsWith (x # xs) d \<or> js_includes xs d)"

definition endsWith :: "string \<Rightarrow> string \<Rightarrow> bool" where
  "endsWith s d = (length d \<le> length s \<and> drop (length s - length d) s = d)"

text \<open>
  The constructor \<^verbatim>\<open>new URL(url)\<close> is a parameter: it gives the parsed URL or throws.
  The inner \<^verbatim>\<open>case\<close> is the \<^verbatim>\<open>try\<close> block, the outer one the \<^verbatim>\<open>catch\<close>.
\<close>

definition isValidVideoUrl :: "(string \<Rightarrow> exn + url_obj) \<Rightarrow> string \<Rightarrow> exn + bool" where
  "isValidVideoUrl URL url =
     (case (case URL url of
              Inl x \<Rightarrow> Inl x
            | Inr urlObj \<Rightarrow>
                Inr (list_ex (\<lambda>domain. js_includes (hostname urlObj) domain
                                      \<or> endsWith (hostname urlObj) domain) supportedDomains))
      of Inl x \<Rightarrow> Inr False
       | Inr b \<Rightarrow> Inr b)"

subsection \<open>\<^verbatim>\<open>pollDownloadStatus\<close>\<close>

text \<open>The client's \<^verbatim>\<open>DownloadStatus\<close>, as the real backend sends it.\<close>

datatype job_status = JQueued | JProcessing | JCompleted | JError | JExpired

record client_status =
  job_id :: string
  job_status :: job_status
  job_progress :: nat
  title :: "string option"
  file_size :: "nat option"
  download_url :: "string option"
  error_message :: "string option"
  created_at :: string
  completed_at :: "string option"
  expires_at :: "string option"

datatype outcome = Resolved client_status | Rejected exn

text \<open>
  The poller. \<^verbatim>\<open>api.getDownloadStatus(jobId)\<close> is a parameter: what its \<open>k\<close>-th call
  gives, a status record or the error it throws. \<^verbatim>\<open>onUpdate\<close> is a parameter too: it
  returns, or throws a value. The result is the list of the records \<^verbatim>\<open>onUpdate\<close> was called
  with, the number of calls of \<^verbatim>\<open>api.getDownloadStatus\<close>, and how the promise is settled.
  \<^verbatim>\<open>maxAttempts\<close> is an integer; the delay \<^verbatim>\<open>intervalMs\<close> between two polls is left out.
\<close>

definition timeout_error :: exn where
  "timeout_error = APIError ''Download timeout - please try again'' None"

function poll ::
  "(nat \<Rightarrow> exn + client_status) \<Rightarrow> (client_status \<Rightarrow> exn option) \<Rightarrow> int \<Rightarrow> nat
     \<Rightarrow> client_status list \<Rightarrow> client_status list \<times> nat \<times> outcome" where
  "poll getStatus onUpdate maxAttempts attempts seen =
     (case getStatus (attempts + 1) of
        Inl err \<Rightarrow> (seen, attempts + 1, Rejected err)
      | Inr stat \<Rightarrow>
          (case onUpdate stat of
             Some err \<Rightarrow> (seen @ [stat], attempts + 1, Rejected err)
           | None \<Rightarrow>
               if job_status stat = JCompleted \<or> job_status stat = JError
                  \<or> job_status stat = JExpired
               then (seen @ [stat], attempts + 1, Resolved stat)
               else if int (attempts + 1) \<ge> maxAttempts
               then (seen @ [stat], attempts + 1, Rejected timeout_error)
               else poll getStatus onUpdate maxAttempts (attempts + 1) (seen @ [stat])))"
  by pat_completeness auto
termination
  by (relation "measure (\<lambda>(g, u, m, a, s). nat (m - int a))") auto

definition pollDownloadStatus ::
  "(string \<Rightarrow> nat \<Rightarrow> exn + client_status) \<Rightarrow> string \<Rightarrow> (client_status \<Rightarrow> exn option) \<Rightarrow> int
     \<Rightarrow> client_status list \<times> nat \<times> outcome" where
  "pollDownloadStatus getDownloadStatus jobId onUpdate maxAttempts =
     poll (getDownloadStatus jobId) onUpdate maxAttempts 0 []"

section \<open>Auxiliary notions\<close>

text \<open>
  The strings the status route accepts after \<^verbatim>\<open>/api/download/\<close>, and the shape of that
  route's pattern: an anchored literal prefix followed by one captured run of a class.
\<close>

definition valid_id :: "string \<Rightarrow> bool" where
  "valid_id u = (u \<noteq> [] \<and> (\<forall>x \<in> set u. word_char x))"

definition route :: "string \<Rightarrow> nat \<Rightarrow> (char \<Rightarrow> bool) \<Rightarrow> regex" where
  "route P n p = Seq Bol (Seq (lit P) (Seq (Group n (Plus (Chr p))) Eol))"

text \<open>
  The record and the timers a successful submission adds, and the worker after it.
  \<open>accepted\<close> says that a body passes the two checks of \<^verbatim>\<open>POST /api/download\<close>.
\<close>

definition queued_record :: "env \<Rightarrow> download_status" where
  "queued_record e =
     \<lparr>status_id = generateDownloadId e, status = Queued, progress = 0, downloadUrl = None,
      error = None, createdAt = now e, completedAt = None\<rparr>"

definition callbacks :: "env \<Rightarrow> string \<Rightarrow> timer list" where
  "callbacks e format =
     [\<lparr>due = now e + 1000, job = generateDownloadId e, action = Progress25\<rparr>,
      \<lparr>due = now e + 2000, job = generateDownloadId e, action = Progress75\<rparr>,
      \<lparr>due = now e + 3000, job = generateDownloadId e, action = Complete format\<rparr>]"

definition submitted :: "env \<Rightarrow> string \<Rightarrow> worker \<Rightarrow> worker" where
  "submitted e format w =
     w\<lparr>downloadStatuses := (downloadStatuses w)(generateDownloadId e \<mapsto> queued_record e),
       timers := timers w @ callbacks e format\<rparr>"

definition accepted :: "request_body \<Rightarrow> bool" where
  "accepted b =
     (case b of
        Malformed \<Rightarrow> False
      | Fields url format quality \<Rightarrow>
          \<not> falsy url \<and> \<not> falsy format \<and> \<not> falsy quality
          \<and> detectPlatform (the url) \<noteq> ''Unknown'')"



text \<open>The statuses at which the client's poller stops.\<close>

definition terminal :: "client_status \<Rightarrow> bool" where
  "terminal s = (job_status s = JCompleted \<or> job_status s = JError \<or> job_status s = JExpired)"

section \<open>Example inputs\<close>

text \<open>A \<^verbatim>\<open>URL\<close> constructor that parses one string and throws on every other one.\<close>

definition example_URL :: "string \<Rightarrow> exn + url_obj" where
  "example_URL s =
     (if s = ''https://youtu.be/abc12345678'' then Inr \<lparr>hostname = ''youtu.be''\<rparr>
      else Inl TypeError)"

text \<open>The scenario of the specification: a submission of a YouTube URL.\<close>

definition example_env :: env where
  "example_env = \<lparr>random = [1, 2, 3], now = 1000\<rparr>"

definition example_submit :: request where
  "example_submit =
     \<lparr>http_method = ''POST'', pathname = ''/api/download'',
      body = Fields (Some ''https://www.youtube.com/watch?v=abc12345678'')
                    (Some ''mp4'') (Some ''720p'')\<rparr>"

text \<open>
  A submission with a format and a quality that no list of supported values would hold,
  and a submission of a URL of no known platform.
\<close>

definition unsupported_submit :: request where
  "unsupported_submit =
     \<lparr>http_method = ''POST'', pathname = ''/api/download'',
      body = Fields (Some ''https://www.youtube.com/watch?v=abc12345678'')
                    (Some ''exe'') (Some ''9999p'')\<rparr>"

definition unknown_submit :: request where
  "unknown_submit =
     \<lparr>http_method = ''POST'', pathname = ''/api/download'',
      body = Fields (Some ''https://example.com/video'') (Some ''mp4'') (Some ''720p'')\<rparr>"

text \<open>
  Environments with a given clock, the request for the status of the example job, and the
  worker while the job is processing and after it has completed.
\<close>

definition at :: "nat \<Rightarrow> env" where
  "at n = \<lparr>random = [], now = n\<rparr>"

definition status_request :: request where
  "status_request =
     \<lparr>http_method = ''GET'', pathname = ''/api/download/dl_123rs'', body = Malformed\<rparr>"



definition completed_record :: download_status where
  "completed_record =
     \<lparr>status_id = ''dl_123rs'', status = Completed, progress = 100,
      downloadUrl = Some ''/files/dl_123rs.mp4'', error = None, createdAt = 1000,
      completedAt = Some 4000\<rparr>"

definition completed_worker :: worker where
  "completed_worker = \<lparr>downloadStatuses = [''dl_123rs'' \<mapsto> completed_record], timers = []\<rparr>"

text \<open>Thirty days after the example job was created; a second submission; later events.\<close>

definition month_later :: env where
  "month_later = \<lparr>random = [4, 5, 6], now = 1000 + 30 * 86400000\<rparr>"



text \<open>What the real backend could answer to the poller: a job that completes, and one that never does.\<close>

definition example_status :: "job_status \<Rightarrow> nat \<Rightarrow> client_status" where
  "example_status s p =
     \<lparr>job_id = ''dl_123rs'', job_status = s, job_progress = p, title = None, file_size = None,
      download_url = None, error_message = None, created_at = ''2026-01-01T00:00:00Z'',
      completed_at = None, expires_at = None\<rparr>"

definition example_reads :: "nat \<Rightarrow> client_status" where
  "example_reads k =
     (if k = 1 then example_status JQueued 0
      else if k = 2 then example_status JProcessing 25
      else example_status JCompleted 100)"

definition stuck_reads :: "nat \<Rightarrow> client_status" where
  "stuck_reads k = example_status JProcessing 25"

section \<open>Properties of the matcher\<close>

declare mt.simps(5) [simp del]
declare toString36.simps [simp del]
declare poll.simps [simp del]

lemma mt_lit:
  "mt (lit l) (i, s, c) =
     (if take (length l) s = l then [(i + length l, drop (length l) s, c)] else [])"
proof (induction l arbitrary: i s)
  case Nil
  show ?case by simp
next
  case (Cons x xs)
  show ?case
  proof (cases s)
    case Nil
    then show ?thesis by simp
  next
    case (Cons y ys)
    then show ?thesis using Cons.IH [of "Suc i" ys] by simp
  qed
qed

lemma mt_star_chr_Nil: "mt (Star (Chr p)) (i, [], c) = [(i, [], c)]"
  by (subst mt.simps) simp

lemma mt_star_chr_Cons:
  "mt (Star (Chr p)) (i, x # xs, c) =
     (if p x then mt (Star (Chr p)) (Suc i, xs, c) @ [(i, x # xs, c)] else [(i, x # xs, c)])"
  by (subst mt.simps) simp

lemma mt_star_chr:
  "set (mt (Star (Chr p)) (i, s, c)) =
     {(i + length u, t, c) | u t. s = u @ t \<and> (\<forall>x \<in> set u. p x)}"
proof (induction s arbitrary: i)
  case Nil
  show ?case by (auto simp: mt_star_chr_Nil)
next
  case (Cons y ys)
  show ?case
  proof (cases "p y")
    case False
    then show ?thesis
      by (auto simp: mt_star_chr_Cons Cons_eq_append_conv)
  next
    case True
    have "set (mt (Star (Chr p)) (i, y # ys, c)) =
            set (mt (Star (Chr p)) (Suc i, ys, c)) \<union> {(i, y # ys, c)}"
      using True by (simp add: mt_star_chr_Cons)
    also have "\<dots> = {(Suc i + length u, t, c) | u t. ys = u @ t \<and> (\<forall>x \<in> set u. p x)}
                    \<union> {(i, y # ys, c)}"
      by (simp only: Cons.IH)
    also have "\<dots> = {(i + length u, t, c) | u t. y # ys = u @ t \<and> (\<forall>x \<in> set u. p x)}"
      using True by (auto simp: Cons_eq_append_conv) 
    finally show ?thesis .
  qed
qed

lemma mt_plus_chr:
  "set (mt (Plus (Chr p)) (i, s, c)) =
     {(i + length u, t, c) | u t. s = u @ t \<and> u \<noteq> [] \<and> (\<forall>x \<in> set u. p x)}"
proof (cases s)
  case Nil
  then show ?thesis by (simp add: Plus_def)
next
  case (Cons y ys)
  show ?thesis
  proof (cases "p y")
    case False
    then show ?thesis using Cons
      by (auto simp: Plus_def Cons_eq_append_conv)
  next
    case True
    have "set (mt (Plus (Chr p)) (i, s, c)) = set (mt (Star (Chr p)) (Suc i, ys, c))"
      using True Cons by (simp add: Plus_def)
    also have "\<dots> = {(Suc i + length u, t, c) | u t. ys = u @ t \<and> (\<forall>x \<in> set u. p x)}"
      by (rule mt_star_chr)
    also have "\<dots> = {(i + length u, t, c) | u t. s = u @ t \<and> u \<noteq> [] \<and> (\<forall>x \<in> set u. p x)}"
      using True Cons by (auto simp: Cons_eq_append_conv) 
    finally show ?thesis .
  qed
qed

lemma mt_group_plus_chr:
  "set (mt (Group n (Plus (Chr p))) (i, s, c)) =
     {(i + length u, t, c(n \<mapsto> u)) | u t. s = u @ t \<and> u \<noteq> [] \<and> (\<forall>x \<in> set u. p x)}"
  by (auto simp: mt_plus_chr image_iff)

lemma mt_group_eol:
  "set (mt (Seq (Group n (Plus (Chr p))) Eol) (i, s, c)) =
     (if s \<noteq> [] \<and> (\<forall>x \<in> set s. p x) then {(i + length s, [], c(n \<mapsto> s))} else {})"
proof -
  have "set (mt (Seq (Group n (Plus (Chr p))) Eol) (i, s, c)) =
          (\<Union>st \<in> set (mt (Group n (Plus (Chr p))) (i, s, c)). set (mt Eol st))"
    by (simp only: mt.simps(3) set_concat set_map image_image)
  also have "\<dots> =
      (\<Union>st \<in> {(i + length u, t, c(n \<mapsto> u)) | u t. s = u @ t \<and> u \<noteq> [] \<and> (\<forall>x \<in> set u. p x)}.
         set (mt Eol st))"
    by (simp only: mt_group_plus_chr)
  also have "\<dots> =
      (if s \<noteq> [] \<and> (\<forall>x \<in> set s. p x) then {(i + length s, [], c(n \<mapsto> s))} else {})"
    by auto
  finally show ?thesis .
qed

lemma mt_route:
  "set (mt (route P n p) (i, s, c)) =
     (if i = 0 \<and> take (length P) s = P \<and> drop (length P) s \<noteq> []
         \<and> (\<forall>x \<in> set (drop (length P) s). p x)
      then {(length s, [], c(n \<mapsto> drop (length P) s))} else {})"
proof (cases "i = 0 \<and> take (length P) s = P")
  case False
  then show ?thesis
    by (auto simp: route_def mt_lit)
next
  case True
  have len: "length P \<le> length s"
  proof (rule ccontr)
    assume "\<not> length P \<le> length s"
    then have "length (take (length P) s) < length P" by simp
    with True show False by simp
  qed
  have "mt (route P n p) (i, s, c) =
          mt (Seq (Group n (Plus (Chr p))) Eol) (length P, drop (length P) s, c)"
    using True by (simp add: route_def mt_lit del: mt.simps(6))
  then show ?thesis
    using True len by (simp only: mt_group_eol) auto
qed

lemma exec_from_route_Suc: "exec_from (route P n p) (Suc i) s = None"
proof (induction s arbitrary: i)
  case Nil
  have "set (mt (route P n p) (Suc i, [], Map.empty)) = {}"
    by (simp only: mt_route) simp
  then show ?case by simp
next
  case (Cons x xs)
  have "set (mt (route P n p) (Suc i, x # xs, Map.empty)) = {}"
    by (simp only: mt_route) simp
  then show ?case using Cons.IH by simp
qed

lemma exec_route:
  "exec (route P n p) s =
     (if take (length P) s = P \<and> drop (length P) s \<noteq> []
         \<and> (\<forall>x \<in> set (drop (length P) s). p x)
      then Some [n \<mapsto> drop (length P) s] else None)"
proof (cases "mt (route P n p) (0, s, Map.empty)")
  case Nil
  then have "set (mt (route P n p) (0, s, Map.empty)) = {}" by simp
  then have "\<not> (take (length P) s = P \<and> drop (length P) s \<noteq> []
         \<and> (\<forall>x \<in> set (drop (length P) s). p x))"
    unfolding mt_route by (auto split: if_splits)
  moreover have "exec_from (route P n p) 0 s = None"
    using Nil exec_from_route_Suc by (cases s) simp_all
  ultimately show ?thesis by (simp add: exec_def)
next
  case (Cons st sts)
  then have "st \<in> set (mt (route P n p) (0, s, Map.empty))" by simp
  then have ok: "take (length P) s = P \<and> drop (length P) s \<noteq> []
         \<and> (\<forall>x \<in> set (drop (length P) s). p x)"
    and st: "st = (length s, [], [n \<mapsto> drop (length P) s])"
    unfolding mt_route by (auto split: if_splits)
  have "exec_from (route P n p) 0 s = Some st"
    using Cons by simp
  then show ?thesis using ok st by (simp add: exec_def)
qed

lemma downloadRoute_route: "downloadRoute = route ''/api/download/'' 1 word_char"
  by (simp only: downloadRoute_def route_def)

lemma exec_downloadRoute_id:
  "exec downloadRoute (''/api/download/'' @ u) = (if valid_id u then Some [1 \<mapsto> u] else None)"
  unfolding downloadRoute_route exec_route by (simp add: valid_id_def)

section \<open>Properties of the handler\<close>

lemma not_word_slash: "\<not> word_char CHR ''/''"
  by (simp add: word_char_def lower_def upper_def digit_def)

lemma fetch_post_download:
  "fetch e \<lparr>http_method = ''POST'', pathname = ''/api/download'', body = b\<rparr> w =
     start_download e b w"
  by (simp add: fetch_def)

lemma fetch_under_download:
  assumes p: "p = ''/api/download/'' @ i"
  shows "fetch e \<lparr>http_method = m, pathname = p, body = b\<rparr> w =
     (if m = ''OPTIONS'' then json 200 NoBody
      else if m = ''GET'' \<and> valid_id i then download_status_of [1 \<mapsto> i] w
      else json 404 (NotFound p), w)"
proof -
  have 1: "p \<noteq> ''/api/health''" "p \<noteq> ''/api/video-info''" "p \<noteq> ''/api/download''"
    "p \<noteq> ''/api/supported-platforms''"
    by (simp_all add: p)
  have 2: "exec downloadRoute p = (if valid_id i then Some [1 \<mapsto> i] else None)"
    by (simp only: p exec_downloadRoute_id)
  show ?thesis
    by (simp add: fetch_def 1 2)
qed

lemma not_valid_id_file: "\<not> valid_id (i @ ''/file'')"
  by (simp add: valid_id_def not_word_slash)

lemma digit36_class: "lower (digit36 d) \<or> digit (digit36 d)"
proof -
  have "\<forall>c \<in> set ''0123456789abcdefghijklmnopqrstuvwxyz''. lower c \<or> digit c"
    by (simp add: lower_def digit_def)
  moreover have "digit36 d \<in> set ''0123456789abcdefghijklmnopqrstuvwxyz''"
    unfolding digit36_def by (rule nth_mem) simp
  ultimately show ?thesis by blast
qed

lemma toString36_class: "c \<in> set (toString36 n) \<Longrightarrow> lower c \<or> digit c"
proof (induction n rule: toString36.induct)
  case (1 n)
  show ?case
  proof (cases "n < 36")
    case True
    then have "toString36 n = [digit36 n]"
      by (subst toString36.simps) simp
    with "1.prems" have "c = digit36 n" by simp
    then show ?thesis using digit36_class by simp
  next
    case False
    then have "toString36 n = toString36 (n div 36) @ [digit36 (n mod 36)]"
      by (subst toString36.simps) simp
    with "1.prems" have "c \<in> set (toString36 (n div 36)) \<or> c = digit36 (n mod 36)"
      by auto
    then show ?thesis using "1.IH" False digit36_class by auto
  qed
qed

lemma random_part_class:
  "c \<in> set (substr (random_toString36 ds) 2 9) \<Longrightarrow> lower c \<or> digit c"
proof -
  assume "c \<in> set (substr (random_toString36 ds) 2 9)"
  then have "c \<in> set (map digit36 ds)"
    by (auto simp: substr_def random_toString36_def dest: in_set_takeD split: if_splits)
  then show ?thesis using digit36_class by auto
qed

lemma generateDownloadId_class:
  "c \<in> set (generateDownloadId e) \<Longrightarrow> lower c \<or> digit c \<or> c = CHR ''_''"
  unfolding generateDownloadId_def
  using random_part_class [of c "random e"] toString36_class [of c "now e"]
  by (auto simp: lower_def)

lemma generateDownloadId_prefix: "take 3 (generateDownloadId e) = ''dl_''"
  by (simp add: generateDownloadId_def)

lemma generateDownloadId_valid: "valid_id (generateDownloadId e)"
  unfolding valid_id_def word_char_def
  using generateDownloadId_class [of _ e] by (auto simp: generateDownloadId_def)

lemma detectPlatform_Nil: "detectPlatform [] = ''Unknown''"
  by code_simp

lemma start_download_accepted:
  "start_download e (Fields (Some u) (Some f) (Some q)) w =
     (if u = [] \<or> f = [] \<or> q = []
      then (json 400 (ErrorBody ''URL, format, and quality are required''), w)
      else if detectPlatform u = ''Unknown''
      then (json 400 (ErrorBody ''Unsupported platform''), w)
      else (json 200 (Created (generateDownloadId e) (queued_record e)), submitted e f w))"
  by (simp add: start_download_def falsy_def queued_record_def submitted_def callbacks_def Let_def)

lemma start_download_cases:
  "start_download e b w =
     (if accepted b
      then (json 200 (Created (generateDownloadId e) (queued_record e)),
            submitted e (case b of Fields url format quality \<Rightarrow> the format) w)
      else (json (if b = Malformed then 500 else 400)
              (ErrorBody (if b = Malformed then ''Internal Server Error''
                          else if \<not> (case b of Fields url format quality \<Rightarrow>
                                   \<not> falsy url \<and> \<not> falsy format \<and> \<not> falsy quality)
                          then ''URL, format, and quality are required''
                          else ''Unsupported platform'')), w))"
  by (cases b)
     (simp_all add: start_download_def accepted_def queued_record_def submitted_def
        callbacks_def Let_def)

lemma video_info_not_Created: "payload (video_info b) \<noteq> Created i r"
  by (cases b) (simp_all add: video_info_def json_def Let_def)

lemma download_status_of_not_Created: "payload (download_status_of m w) \<noteq> Created i r"
  by (simp add: download_status_of_def json_def Let_def split: property.splits)

lemma fetch_effect:
  "(snd (fetch e req w) = w \<and> (\<forall>i r. payload (fst (fetch e req w)) \<noteq> Created i r)) \<or>
   (\<exists>f. fetch e req w =
          (json 200 (Created (generateDownloadId e) (queued_record e)), submitted e f w))"
proof (cases "http_method req \<noteq> ''OPTIONS'' \<and> pathname req \<noteq> ''/api/health''
    \<and> pathname req \<noteq> ''/api/video-info''
    \<and> pathname req = ''/api/download'' \<and> http_method req = ''POST''")
  case True
  then have "fetch e req w = start_download e (body req) w"
    by (simp add: fetch_def)
  then show ?thesis
    by (simp add: start_download_cases json_def) blast
next
  case False
  then have "snd (fetch e req w) = w \<and> (\<forall>i r. payload (fst (fetch e req w)) \<noteq> Created i r)"
    by (auto simp: fetch_def Let_def video_info_not_Created download_status_of_not_Created
        json_def)
  then show ?thesis ..
qed

lemma download_status_of_Own:
  "downloadStatuses w i = Some r \<Longrightarrow> download_status_of [1 \<mapsto> i] w = json 200 (StatusOf r)"
  by (simp add: download_status_of_def lookup_def)



lemma never_issued_not_found:
  assumes "downloadStatuses w i = None" and "i \<notin> set object_prototype"
  shows "fetch e \<lparr>http_method = ''GET'', pathname = ''/api/download/'' @ i, body = b\<rparr> w =
           (json 404 (if valid_id i then ErrorBody ''Download not found''
                      else NotFound (''/api/download/'' @ i)), w) \<and>
         fetch e \<lparr>http_method = ''GET'', pathname = ''/api/download/'' @ i @ ''/file'',
                  body = b\<rparr> w =
           (json 404 (NotFound (''/api/download/'' @ i @ ''/file'')), w)"
proof
  have "download_status_of [1 \<mapsto> i] w = json 404 (ErrorBody ''Download not found'')"
    using assms by (simp add: download_status_of_def lookup_def)
  then show "fetch e \<lparr>http_method = ''GET'', pathname = ''/api/download/'' @ i, body = b\<rparr> w =
           (json 404 (if valid_id i then ErrorBody ''Download not found''
                      else NotFound (''/api/download/'' @ i)), w)"
    by (simp only: fetch_under_download [OF refl]) simp
  show "fetch e \<lparr>http_method = ''GET'', pathname = ''/api/download/'' @ i @ ''/file'',
                  body = b\<rparr> w =
           (json 404 (NotFound (''/api/download/'' @ i @ ''/file'')), w)"
    by (simp only: fetch_under_download [OF refl] not_valid_id_file) simp
qed

section \<open>Properties of the event loop\<close>















section \<open>The example inputs evaluated\<close>

lemma example_id: "generateDownloadId example_env = ''dl_123rs''"
  by code_simp


lemma example_platform:
  "detectPlatform ''https://www.youtube.com/watch?v=abc12345678'' \<noteq> ''Unknown''"
  by code_simp

lemma unknown_platform: "detectPlatform ''https://example.com/video'' = ''Unknown''"
  by code_simp

lemma valid_example_id: "valid_id ''dl_123rs''"
  by (simp add: valid_id_def word_char_def lower_def upper_def digit_def)

lemma example_fetch:
  "fetch example_env example_submit init =
     (json 200 (Created ''dl_123rs'' (queued_record example_env)),
      submitted example_env ''mp4'' init)"
  using example_platform
  by (simp add: example_submit_def fetch_post_download start_download_accepted example_id)





lemma completed_worker_lookup: "downloadStatuses completed_worker ''dl_123rs'' = Some completed_record"
  by (simp add: completed_worker_def)




section \<open>Claims about the worker\<close>

text \<open>
  Claim C1. For every submission whose URL matches a platform pattern and whose format and
  quality are present (non-empty strings, which is what the handler's check of
  \<^verbatim>\<open>!body.format\<close> and \<^verbatim>\<open>!body.quality\<close> asks), \<^verbatim>\<open>POST /api/download\<close> answers 200 with a
  non-empty job identifier and a status record that is \<^verbatim>\<open>queued\<close> with progress 0; that
  record is stored under the identifier, and the handler returns with the three callbacks
  of the simulated extraction still pending, none of them run.
\<close>

theorem submit_returns_queued_job:
  assumes "detectPlatform url \<noteq> ''Unknown''" and "format \<noteq> []" and "quality \<noteq> []"
  shows "\<exists>i r.
    fst (fetch e \<lparr>http_method = ''POST'', pathname = ''/api/download'',
           body = Fields (Some url) (Some format) (Some quality)\<rparr> w)
      = json 200 (Created i r) \<and>
    i \<noteq> [] \<and> status_id r = i \<and> status r = Queued \<and> progress r = 0 \<and>
    downloadStatuses (snd (fetch e \<lparr>http_method = ''POST'', pathname = ''/api/download'',
           body = Fields (Some url) (Some format) (Some quality)\<rparr> w)) i = Some r \<and>
    timers (snd (fetch e \<lparr>http_method = ''POST'', pathname = ''/api/download'',
           body = Fields (Some url) (Some format) (Some quality)\<rparr> w)) =
      timers w @
        [\<lparr>due = now e + 1000, job = i, action = Progress25\<rparr>,
         \<lparr>due = now e + 2000, job = i, action = Progress75\<rparr>,
         \<lparr>due = now e + 3000, job = i, action = Complete format\<rparr>]"
proof -
  from assms(1) have "url \<noteq> []"
    using detectPlatform_Nil by auto
  with assms have "fetch e \<lparr>http_method = ''POST'', pathname = ''/api/download'',
           body = Fields (Some url) (Some format) (Some quality)\<rparr> w =
     (json 200 (Created (generateDownloadId e) (queued_record e)), submitted e format w)"
    by (simp add: fetch_post_download start_download_accepted)
  moreover have "generateDownloadId e \<noteq> []"
    using generateDownloadId_valid [of e] by (simp add: valid_id_def)
  ultimately show ?thesis
    by (intro exI [of _ "generateDownloadId e"] exI [of _ "queued_record e"])
       (simp add: queued_record_def submitted_def callbacks_def)
qed

theorem submit_returns_queued_job_witness:
  "detectPlatform ''https://www.youtube.com/watch?v=abc12345678'' \<noteq> ''Unknown'' \<and>
   (\<exists>i r. fst (fetch example_env example_submit init) = json 200 (Created i r) \<and>
      i \<noteq> [] \<and> status r = Queued \<and> progress r = 0 \<and>
      downloadStatuses (snd (fetch example_env example_submit init)) i = Some r)"
proof -
  have f: "''mp4'' \<noteq> []" and q: "''720p'' \<noteq> []"
    by simp_all
  from submit_returns_queued_job [OF example_platform f q, of example_env init] example_platform
  show ?thesis
    unfolding example_submit_def by blast
qed





text \<open>
  Claim C4 says that a submission whose format or quality is not in a fixed list of
  supported values is rejected. The handler has no such list: with a recognised URL, the
  format \<^verbatim>\<open>exe\<close> and the quality \<^verbatim>\<open>9999p\<close> are accepted and a job is created.
\<close>

theorem unsupported_format_accepted:
  "code (fst (fetch example_env unsupported_submit init)) = 200 \<and>
   downloadStatuses (snd (fetch example_env unsupported_submit init)) ''dl_123rs''
     = Some (queued_record example_env)"
  using example_platform
  by (simp add: unsupported_submit_def fetch_post_download start_download_accepted
      submitted_def example_id json_def)

text \<open>
  Claim C4, amended. \<^verbatim>\<open>POST /api/download\<close> answers 400 and leaves the job table as it was
  whenever the URL is missing, empty or of no known platform, or the format or the quality
  is missing or empty; in every other case, whatever the values of format and quality, it
  answers 200.
\<close>

theorem submit_rejects_missing_or_unknown:
  "(if falsy url \<or> falsy format \<or> falsy quality
       \<or> (\<exists>u. url = Some u \<and> detectPlatform u = ''Unknown'')
    then code (fst (fetch e \<lparr>http_method = ''POST'', pathname = ''/api/download'',
                 body = Fields url format quality\<rparr> w)) = 400 \<and>
         snd (fetch e \<lparr>http_method = ''POST'', pathname = ''/api/download'',
                 body = Fields url format quality\<rparr> w) = w
    else code (fst (fetch e \<lparr>http_method = ''POST'', pathname = ''/api/download'',
                 body = Fields url format quality\<rparr> w)) = 200)"
  by (auto simp: fetch_post_download start_download_cases accepted_def json_def falsy_def)

theorem submit_rejects_missing_or_unknown_witness:
  "detectPlatform ''https://example.com/video'' = ''Unknown'' \<and>
   code (fst (fetch example_env unknown_submit init)) = 400 \<and>
   snd (fetch example_env unknown_submit init) = init"
proof -
  from submit_rejects_missing_or_unknown
    [of "Some ''https://example.com/video''" "Some ''mp4''" "Some ''720p''" example_env init]
    unknown_platform
  show ?thesis
    by (simp add: unknown_submit_def)
qed

text \<open>
  Claim C5 says that a job older than the retention window is reported as \<^verbatim>\<open>expired\<close>.
  Thirty days after the example job was created, the status read still reports it as
  \<^verbatim>\<open>completed\<close>.
\<close>

theorem old_job_not_expired:
  "createdAt completed_record + 30 * 86400000 \<le> now month_later \<and>
   fetch month_later
     \<lparr>http_method = ''GET'', pathname = ''/api/download/dl_123rs'', body = Malformed\<rparr>
     completed_worker = (json 200 (StatusOf completed_record), completed_worker) \<and>
   status completed_record = Completed"
proof -
  have "fetch month_later
     \<lparr>http_method = ''GET'', pathname = ''/api/download/'' @ ''dl_123rs'', body = Malformed\<rparr>
     completed_worker = (json 200 (StatusOf completed_record), completed_worker)"
    by (simp only: fetch_under_download [OF refl] valid_example_id
          download_status_of_Own [OF completed_worker_lookup]) simp
  then show ?thesis
    by (simp add: completed_record_def month_later_def)
qed

text \<open>
  Claim C5, amended. Whatever the clock reads, \<^verbatim>\<open>GET /api/download/{id}\<close> reports the
  stored record of a job as it is (the worker has no retention window and no \<^verbatim>\<open>expired\<close>
  status), and \<^verbatim>\<open>GET /api/download/{id}/file\<close> answers 404: the worker serves no file, at
  any age of the job.
\<close>

theorem status_read_ignores_age:
  assumes "downloadStatuses w i = Some r" and "valid_id i"
  shows "fetch e \<lparr>http_method = ''GET'', pathname = ''/api/download/'' @ i, body = b\<rparr> w =
           (json 200 (StatusOf r), w) \<and>
         fetch e \<lparr>http_method = ''GET'', pathname = ''/api/download/'' @ i @ ''/file'',
                  body = b\<rparr> w =
           (json 404 (NotFound (''/api/download/'' @ i @ ''/file'')), w)"
proof
  show "fetch e \<lparr>http_method = ''GET'', pathname = ''/api/download/'' @ i, body = b\<rparr> w =
           (json 200 (StatusOf r), w)"
    using assms by (simp only: fetch_under_download [OF refl] download_status_of_Own) simp
  show "fetch e \<lparr>http_method = ''GET'', pathname = ''/api/download/'' @ i @ ''/file'',
                  body = b\<rparr> w =
           (json 404 (NotFound (''/api/download/'' @ i @ ''/file'')), w)"
    by (simp only: fetch_under_download [OF refl] not_valid_id_file) simp
qed

theorem status_read_ignores_age_witness:
  "downloadStatuses completed_worker ''dl_123rs'' = Some completed_record \<and>
   valid_id ''dl_123rs'' \<and>
   fetch month_later
     \<lparr>http_method = ''GET'', pathname = ''/api/download/dl_123rs/file'', body = Malformed\<rparr>
     completed_worker =
       (json 404 (NotFound ''/api/download/dl_123rs/file''), completed_worker)"
  using status_read_ignores_age [OF completed_worker_lookup valid_example_id,
      of month_later Malformed] completed_worker_lookup valid_example_id
  by simp

text \<open>
  Claim C6 says that \<^verbatim>\<open>DELETE /api/download/{id}\<close> on an existing job removes the record and
  succeeds. On the completed example job it answers 404 and the record stays.
\<close>

theorem delete_keeps_record:
  "fetch example_env
     \<lparr>http_method = ''DELETE'', pathname = ''/api/download/dl_123rs'', body = Malformed\<rparr>
     completed_worker =
       (json 404 (NotFound ''/api/download/dl_123rs''), completed_worker) \<and>
   downloadStatuses completed_worker ''dl_123rs'' = Some completed_record"
proof -
  have "fetch example_env
     \<lparr>http_method = ''DELETE'', pathname = ''/api/download/'' @ ''dl_123rs'', body = Malformed\<rparr>
     completed_worker =
       (json 404 (NotFound (''/api/download/'' @ ''dl_123rs'')), completed_worker)"
    by (simp only: fetch_under_download [OF refl]) simp
  then show ?thesis
    by (simp add: completed_worker_lookup)
qed

text \<open>
  Claim C6, amended. \<^verbatim>\<open>DELETE /api/download/{id}\<close> never raises and is idempotent because it
  changes nothing: for every identifier, with or without a record, the worker answers
  404 \<^verbatim>\<open>Not Found\<close> and leaves the job table as it was. The worker has no cleanup route.
\<close>

theorem delete_changes_nothing:
  "fetch e \<lparr>http_method = ''DELETE'', pathname = ''/api/download/'' @ i, body = b\<rparr> w =
     (json 404 (NotFound (''/api/download/'' @ i)), w)"
  by (simp only: fetch_under_download [OF refl]) simp

text \<open>
  Claim C7 says that a status read of an identifier that was never issued answers 404. On
  the initial worker, which has issued no identifier, \<^verbatim>\<open>GET /api/download/constructor\<close>
  answers 200: \<^verbatim>\<open>downloadStatuses['constructor']\<close> is the inherited property of
  \<^verbatim>\<open>Object.prototype\<close>, which is truthy. (For every other identifier that has no record the
  answer is 404, see \<open>never_issued_not_found\<close>.)
\<close>

theorem inherited_name_found:
  "fetch example_env
     \<lparr>http_method = ''GET'', pathname = ''/api/download/constructor'', body = Malformed\<rparr>
     init = (json 200 StatusInherited, init)"
proof -
  have v: "valid_id ''constructor''"
    by (simp add: valid_id_def word_char_def lower_def upper_def digit_def)
  have l: "lookup init ''constructor'' = Inherited"
    by (simp add: lookup_def init_def object_prototype_def)
  have "fetch example_env
     \<lparr>http_method = ''GET'', pathname = ''/api/download/'' @ ''constructor'', body = Malformed\<rparr>
     init = (json 200 StatusInherited, init)"
    using v l by (simp only: fetch_under_download [OF refl] download_status_of_def) simp
  then show ?thesis by simp
qed

text \<open>
  Claim C9. Every identifier that \<^verbatim>\<open>generateDownloadId\<close> produces begins with \<^verbatim>\<open>dl_\<close> and
  has only characters of \<^verbatim>\<open>[a-z0-9_]\<close>, so the pattern of the status route matches the path
  \<^verbatim>\<open>/api/download/{id}\<close> and captures the identifier; and for every identifier that a
  successful \<^verbatim>\<open>POST /api/download\<close> returns, a \<^verbatim>\<open>GET /api/download/{id}\<close> handled in the
  state the submission left reaches the status handler and answers with the record that
  was stored.
\<close>

theorem job_id_round_trip:
  "take 3 (generateDownloadId e) = ''dl_'' \<and>
   (\<forall>c \<in> set (generateDownloadId e). lower c \<or> digit c \<or> c = CHR ''_'') \<and>
   (\<exists>m. exec downloadRoute (''/api/download/'' @ generateDownloadId e) = Some m
        \<and> m 1 = Some (generateDownloadId e)) \<and>
   (\<forall>i r w'. fetch e req w = (json 200 (Created i r), w') \<longrightarrow>
      fetch e' \<lparr>http_method = ''GET'', pathname = ''/api/download/'' @ i, body = b\<rparr> w' =
        (json 200 (StatusOf r), w'))"
proof (intro conjI allI impI)
  show "take 3 (generateDownloadId e) = ''dl_''"
    by (rule generateDownloadId_prefix)
  show "\<forall>c \<in> set (generateDownloadId e). lower c \<or> digit c \<or> c = CHR ''_''"
    using generateDownloadId_class by blast
  show "\<exists>m. exec downloadRoute (''/api/download/'' @ generateDownloadId e) = Some m
        \<and> m 1 = Some (generateDownloadId e)"
    by (simp only: exec_downloadRoute_id generateDownloadId_valid) simp
next
  fix i r w'
  assume a: "fetch e req w = (json 200 (Created i r), w')"
  then have "payload (fst (fetch e req w)) = Created i r"
    by (simp add: json_def)
  with fetch_effect [of e req w] a obtain f
    where "i = generateDownloadId e" "r = queued_record e" "w' = submitted e f w"
    by (auto simp: json_def)
  then have v: "valid_id i" and s: "downloadStatuses w' i = Some r"
    by (simp_all add: generateDownloadId_valid submitted_def)
  show "fetch e' \<lparr>http_method = ''GET'', pathname = ''/api/download/'' @ i, body = b\<rparr> w' =
        (json 200 (StatusOf r), w')"
    using v s by (simp only: fetch_under_download [OF refl] download_status_of_Own) simp
qed

theorem job_id_round_trip_witness:
  "generateDownloadId example_env = ''dl_123rs'' \<and>
   fetch example_env example_submit init =
     (json 200 (Created ''dl_123rs'' (queued_record example_env)),
      submitted example_env ''mp4'' init) \<and>
   fetch (at 1500) status_request (submitted example_env ''mp4'' init) =
     (json 200 (StatusOf (queued_record example_env)), submitted example_env ''mp4'' init)"
proof -
  from job_id_round_trip [of example_env example_submit init "at 1500" Malformed] example_fetch
  have "fetch (at 1500) \<lparr>http_method = ''GET'',
      pathname = ''/api/download/'' @ ''dl_123rs'', body = Malformed\<rparr>
      (submitted example_env ''mp4'' init) =
     (json 200 (StatusOf (queued_record example_env)), submitted example_env ''mp4'' init)"
    by blast
  with example_id example_fetch show ?thesis
    by (simp add: status_request_def)
qed

section \<open>Properties of the poller\<close>

lemma poll_step:
  assumes "g (Suc a) = Inr s" and "u s = None"
  shows "poll g u m a seen =
     (if terminal s then (seen @ [s], Suc a, Resolved s)
      else if m \<le> int (Suc a) then (seen @ [s], Suc a, Rejected timeout_error)
      else poll g u m (Suc a) (seen @ [s]))"
  using assms by (subst poll.simps) (simp add: terminal_def)

lemma poll_run:
  assumes "a < n"
    and "\<forall>k. a < k \<and> k \<le> n \<longrightarrow> g k = Inr (S k) \<and> u (S k) = None"
    and "\<forall>k. a < k \<and> k < n \<longrightarrow> \<not> terminal (S k) \<and> int k < m"
  shows "poll g u m a seen =
     (if terminal (S n) then (seen @ map S [Suc a..<Suc n], n, Resolved (S n))
      else if m \<le> int n then (seen @ map S [Suc a..<Suc n], n, Rejected timeout_error)
      else poll g u m n (seen @ map S [Suc a..<Suc n]))"
  using assms
proof (induction "n - a" arbitrary: a seen)
  case 0
  then show ?case by simp
next
  case (Suc d)
  from Suc.prems have g: "g (Suc a) = Inr (S (Suc a))" and u: "u (S (Suc a)) = None"
    by simp_all
  note ps = poll_step [of g a "S (Suc a)" u m seen, OF g u]
  show ?case
  proof (cases "Suc a = n")
    case True
    then have "[Suc a..<Suc n] = [n]" by simp
    with True ps show ?thesis by simp
  next
    case False
    with Suc.prems have lt: "Suc a < n" by simp
    from Suc.prems(3) lt have "\<not> terminal (S (Suc a)) \<and> int (Suc a) < m"
      by blast
    then have nt: "\<not> terminal (S (Suc a))" and b: "int (Suc a) < m"
      by blast+
    have d: "d = n - Suc a" using Suc.hyps(2) by simp
    have 2: "\<forall>k. Suc a < k \<and> k \<le> n \<longrightarrow> g k = Inr (S k) \<and> u (S k) = None"
      using Suc.prems(2) by simp
    have 3: "\<forall>k. Suc a < k \<and> k < n \<longrightarrow> \<not> terminal (S k) \<and> int k < m"
      using Suc.prems(3) by simp
    have up: "[Suc a..<Suc n] = Suc a # [Suc (Suc a)..<Suc n]"
      using lt by (simp add: upt_conv_Cons)
    have "poll g u m a seen = poll g u m (Suc a) (seen @ [S (Suc a)])"
      using ps nt b by simp
    also note Suc.hyps(1) [OF d lt 2 3, of "seen @ [S (Suc a)]"]
    finally have "poll g u m a seen =
       (if terminal (S n)
        then ((seen @ [S (Suc a)]) @ map S [Suc (Suc a)..<Suc n], n, Resolved (S n))
        else if m \<le> int n
        then ((seen @ [S (Suc a)]) @ map S [Suc (Suc a)..<Suc n], n, Rejected timeout_error)
        else poll g u m n ((seen @ [S (Suc a)]) @ map S [Suc (Suc a)..<Suc n]))" .
    moreover have "(seen @ [S (Suc a)]) @ map S [Suc (Suc a)..<Suc n]
        = seen @ map S [Suc a..<Suc n]"
      unfolding up by simp
    ultimately show ?thesis by (simp only:)
  qed
qed

section \<open>Claims about the client library\<close>

text \<open>
  Claim C8. Let the first \<open>n\<close> calls of \<^verbatim>\<open>api.getDownloadStatus\<close> give the records
  \<open>S 1\<close>, ..., \<open>S n\<close>, with \<^verbatim>\<open>onUpdate\<close> returning on each, and let the first \<open>n - 1\<close> of
  them be non-terminal and within the attempt budget. If \<open>S n\<close> is terminal (\<^verbatim>\<open>completed\<close>,
  \<^verbatim>\<open>error\<close> or \<^verbatim>\<open>expired\<close>), the poller resolves with \<open>S n\<close>; if it is not and \<open>n\<close> has
  reached \<^verbatim>\<open>maxAttempts\<close>, the poller rejects with the timeout error. In both cases it has
  called \<^verbatim>\<open>api.getDownloadStatus\<close> exactly \<open>n\<close> times, so it does not poll again, and it has
  called \<^verbatim>\<open>onUpdate\<close> with every record it read, in order.
\<close>

theorem poller_contract:
  assumes "1 \<le> n"
    and "\<forall>k \<in> {1..n}. getDownloadStatus jobId k = Inr (S k) \<and> onUpdate (S k) = None"
    and "\<forall>k \<in> {1..<n}. \<not> terminal (S k) \<and> int k < maxAttempts"
  shows "(terminal (S n) \<longrightarrow>
            pollDownloadStatus getDownloadStatus jobId onUpdate maxAttempts =
              (map S [1..<Suc n], n, Resolved (S n))) \<and>
         (\<not> terminal (S n) \<and> maxAttempts \<le> int n \<longrightarrow>
            pollDownloadStatus getDownloadStatus jobId onUpdate maxAttempts =
              (map S [1..<Suc n], n, Rejected timeout_error))"
proof -
  have 1: "0 < n" using assms(1) by simp
  have 2: "\<forall>k. 0 < k \<and> k \<le> n \<longrightarrow>
      getDownloadStatus jobId k = Inr (S k) \<and> onUpdate (S k) = None"
    using assms(2) by simp
  have 3: "\<forall>k. 0 < k \<and> k < n \<longrightarrow> \<not> terminal (S k) \<and> int k < maxAttempts"
    using assms(3) by simp
  from poll_run [OF 1 2 3, of "[]"] show ?thesis
    by (simp add: pollDownloadStatus_def del: upt_Suc)
qed

theorem poller_contract_witness:
  "pollDownloadStatus (\<lambda>j k. Inr (example_reads k)) ''dl_123rs'' (\<lambda>s. None) 300 =
     ([example_status JQueued 0, example_status JProcessing 25, example_status JCompleted 100],
      3, Resolved (example_status JCompleted 100)) \<and>
   pollDownloadStatus (\<lambda>j k. Inr (stuck_reads k)) ''dl_123rs'' (\<lambda>s. None) 2 =
     ([example_status JProcessing 25, example_status JProcessing 25],
      2, Rejected timeout_error)"
proof -
  have a: "\<forall>k \<in> {1..3}. (\<lambda>j k. Inr (example_reads k)) ''dl_123rs'' k = Inr (example_reads k)
      \<and> (\<lambda>s. None) (example_reads k) = None"
    by simp
  have b: "\<forall>k \<in> {1..<3}. \<not> terminal (example_reads k) \<and> int k < 300"
    by (auto simp: example_reads_def example_status_def terminal_def)
  have c: "terminal (example_reads 3)"
    by (simp add: example_reads_def example_status_def terminal_def)
  have a': "\<forall>k \<in> {1..2}. (\<lambda>j k. Inr (stuck_reads k)) ''dl_123rs'' k = Inr (stuck_reads k)
      \<and> (\<lambda>s. None) (stuck_reads k) = None"
    by simp
  have b': "\<forall>k \<in> {1..<2}. \<not> terminal (stuck_reads k) \<and> int k < 2"
    by (auto simp: stuck_reads_def example_status_def terminal_def)
  have c': "\<not> terminal (stuck_reads 2) \<and> (2::int) \<le> int 2"
    by (simp add: stuck_reads_def example_status_def terminal_def)
  have m: "map example_reads [1..<Suc 3] =
      [example_status JQueued 0, example_status JProcessing 25, example_status JCompleted 100]"
    by (simp add: example_reads_def upt_conv_Cons)
  have m': "map stuck_reads [1..<Suc 2] =
      [example_status JProcessing 25, example_status JProcessing 25]"
    by (simp add: stuck_reads_def upt_conv_Cons)
  from poller_contract [of 3 "\<lambda>j k. Inr (example_reads k)" "''dl_123rs''" example_reads
      "\<lambda>s. None" 300, OF _ a b] c
  have r: "pollDownloadStatus (\<lambda>j k. Inr (example_reads k)) ''dl_123rs'' (\<lambda>s. None) 300 =
      (map example_reads [1..<Suc 3], 3, Resolved (example_reads 3))"
    by simp
  from poller_contract [of 2 "\<lambda>j k. Inr (stuck_reads k)" "''dl_123rs''" stuck_reads
      "\<lambda>s. None" 2, OF _ a' b'] c'
  have t: "pollDownloadStatus (\<lambda>j k. Inr (stuck_reads k)) ''dl_123rs'' (\<lambda>s. None) 2 =
      (map stuck_reads [1..<Suc 2], 2, Rejected timeout_error)"
    by simp
  show ?thesis
    unfolding r t m m' by (simp add: example_reads_def)
qed

text \<open>
  Claim C10. \<^verbatim>\<open>isValidVideoUrl\<close> never throws: for every input string, and whatever the
  \<^verbatim>\<open>URL\<close> constructor does, it returns a boolean; when the constructor throws (the string
  does not parse as a URL), it returns \<^verbatim>\<open>false\<close> and the exception goes no further.
\<close>

theorem isValidVideoUrl_total:
  "(\<exists>b. isValidVideoUrl URL url = Inr b) \<and>
   (\<forall>x. URL url = Inl x \<longrightarrow> isValidVideoUrl URL url = Inr False)"
  by (cases "URL url") (auto simp: isValidVideoUrl_def)

theorem isValidVideoUrl_total_witness:
  "example_URL ''not-a-url'' = Inl TypeError \<and>
   isValidVideoUrl example_URL ''not-a-url'' = Inr False"
proof -
  have h: "example_URL ''not-a-url'' = Inl TypeError"
    by (simp add: example_URL_def)
  from isValidVideoUrl_total [of example_URL "''not-a-url''"] h show ?thesis
    by blast
qed

end
